theory Spec2Isabelle
  imports Main
begin

section \<open>Tensors and failures\<close>

text \<open>
  The components of \<^verbatim>\<open>src/models/components.py\<close> are thin layers over a tensor
  library. A tensor is modelled by value: its shape together with its elements. The
  modules that insist on rank 3 (\<^verbatim>\<open>assert inputs.dim() == 3\<close>) work on
  \<open>tensor3\<close>, whose three sizes are stored next to the nested rows, so that a tensor
  with an empty axis still has a shape. A failed \<^verbatim>\<open>assert\<close> is
  \<open>AssertionError\<close>; an exception raised by the tensor library is \<open>RuntimeError\<close>.
\<close>

datatype error = AssertionError | RuntimeError

record 'a tensor2 =
  nrows :: nat
  ncols :: nat
  cells :: "'a list list"

record 'a tensor3 =
  dim0 :: nat
  dim1 :: nat
  dim2 :: nat
  rows :: "'a list list list"


definition wf3 :: "'a tensor3 \<Rightarrow> bool" where
  "wf3 x \<longleftrightarrow> length (rows x) = dim0 x
     \<and> (\<forall>r \<in> set (rows x). length r = dim1 x \<and> (\<forall>fr \<in> set r. length fr = dim2 x))"

definition numel3 :: "'a tensor3 \<Rightarrow> nat" where
  "numel3 x = dim0 x * dim1 x * dim2 x"

fun traverse :: "('a \<Rightarrow> error + 'b) \<Rightarrow> 'a list \<Rightarrow> error + 'b list" where
  "traverse f [] = Inr []"
| "traverse f (x # xs) =
     (case f x of
        Inl e \<Rightarrow> Inl e
      | Inr y \<Rightarrow> (case traverse f xs of Inl e \<Rightarrow> Inl e | Inr ys \<Rightarrow> Inr (y # ys)))"

text \<open>Row-major regrouping of a flat element list into \<open>n\<close> rows of \<open>m\<close> elements.\<close>

fun chunk :: "nat \<Rightarrow> nat \<Rightarrow> 'a list \<Rightarrow> 'a list list" where
  "chunk 0 m xs = []"
| "chunk (Suc n) m xs = take m xs # chunk n m (drop m xs)"

section \<open>ContextWindow\<close>

text \<open>
  \<^verbatim>\<open>torch.cat(inputs, dim=1)\<close> of two rank-3 tensors: the other two axes must agree.
\<close>

definition cat_dim1 :: "'a tensor3 \<Rightarrow> 'a tensor3 \<Rightarrow> error + 'a tensor3" where
  "cat_dim1 a b =
     (if dim0 a = dim0 b \<and> dim2 a = dim2 b
      then Inr \<lparr>dim0 = dim0 a, dim1 = dim1 a + dim1 b, dim2 = dim2 a,
                rows = map2 (@) (rows a) (rows b)\<rparr>
      else Inl RuntimeError)"

text \<open>\<^verbatim>\<open>_get_padding_for\<close>: a zero tensor of shape \<open>(x.size(0), window, x.size(2))\<close>.\<close>

definition get_padding_for :: "nat \<Rightarrow> 'a::zero tensor3 \<Rightarrow> 'a tensor3" where
  "get_padding_for w x =
     \<lparr>dim0 = dim0 x, dim1 = w, dim2 = dim2 x,
      rows = replicate (dim0 x) (replicate w (replicate (dim2 x) 0))\<rparr>"

definition pad :: "nat \<Rightarrow> 'a::zero tensor3 \<Rightarrow> bool \<Rightarrow> error + 'a tensor3" where
  "pad w x pad_first =
     (let padding = get_padding_for w x
      in if pad_first then cat_dim1 padding x else cat_dim1 x padding)"

text \<open>\<^verbatim>\<open>inputs[:, lo:hi, :]\<close>; a Python slice is clipped to the axis.\<close>

definition slice_dim1 :: "nat \<Rightarrow> nat \<Rightarrow> 'a tensor3 \<Rightarrow> 'a tensor3" where
  "slice_dim1 lo hi x =
     \<lparr>dim0 = dim0 x, dim1 = min (hi - lo) (dim1 x - lo), dim2 = dim2 x,
      rows = map (\<lambda>r. take (hi - lo) (drop lo r)) (rows x)\<rparr>"

text \<open>
  \<^verbatim>\<open>.contiguous().view(n, -1)\<close>: the elements are regrouped, in row-major order, into
  \<open>n\<close> rows. The size of the axis given as \<open>-1\<close> is inferred as the number of elements
  divided by \<open>n\<close>; the library raises when \<open>n\<close> does not divide the number of elements,
  and also when \<open>n = 0\<close> (with no element the missing size could be anything).
\<close>

definition view_rows :: "nat \<Rightarrow> 'a tensor3 \<Rightarrow> error + 'a tensor2" where
  "view_rows n x =
     (if n = 0 \<or> numel3 x mod n \<noteq> 0 then Inl RuntimeError
      else Inr \<lparr>nrows = n, ncols = numel3 x div n,
                cells = chunk n (numel3 x div n) (concat (concat (rows x)))\<rparr>)"

text \<open>
  \<^verbatim>\<open>torch.stack(temps, dim=1)\<close>: the list must not be empty and all its tensors must
  have one shape; element \<open>[r, i, :]\<close> of the result is row \<open>r\<close> of the \<open>i\<close>-th tensor.
\<close>

definition stack_dim1 :: "'a tensor2 list \<Rightarrow> error + 'a tensor3" where
  "stack_dim1 ts =
     (case ts of
        [] \<Rightarrow> Inl RuntimeError
      | t # _ \<Rightarrow>
          if \<forall>u \<in> set ts. nrows u = nrows t \<and> ncols u = ncols t
          then Inr \<lparr>dim0 = nrows t, dim1 = length ts, dim2 = ncols t,
                    rows = map (\<lambda>r. map (\<lambda>u. cells u ! r) ts) [0..<nrows t]\<rparr>
          else Inl RuntimeError)"

text \<open>
  \<^verbatim>\<open>ContextWindow.forward\<close>. The window is a Python integer; a negative one makes
  the allocation of the padding tensor raise.
\<close>

definition cw_forward :: "int \<Rightarrow> 'a::zero tensor3 \<Rightarrow> error + 'a tensor3" where
  "cw_forward window inputs =
     (if window = 0 then Inr inputs
      else if window < 0 then Inl RuntimeError
      else
        let w = nat window; batch_size = dim0 inputs; seq_length = dim1 inputs in
        case pad w inputs True of
          Inl e \<Rightarrow> Inl e
        | Inr inputs1 \<Rightarrow>
            (case pad w inputs1 False of
               Inl e \<Rightarrow> Inl e
             | Inr inputs2 \<Rightarrow>
                 (case traverse
                         (\<lambda>i. view_rows batch_size (slice_dim1 i (i + 2 * w + 1) inputs2))
                         [0..<seq_length] of
                    Inl e \<Rightarrow> Inl e
                  | Inr temps \<Rightarrow> stack_dim1 temps)))"

text \<open>
  The reading of the specification, to compare \<open>cw_forward\<close> with: the frame of row
  \<open>r\<close> at time \<open>j\<close>, a zero vector when \<open>j\<close> lies outside the sequence, and the tensor
  whose entry \<open>[r, i]\<close> joins the frames at times \<open>i - w, \<dots>, i + w\<close>.
\<close>

definition frame_at :: "'a::zero tensor3 \<Rightarrow> nat \<Rightarrow> int \<Rightarrow> 'a list" where
  "frame_at x r j =
     (if 0 \<le> j \<and> j < int (dim1 x) then rows x ! r ! nat j else replicate (dim2 x) 0)"

definition context_frames :: "nat \<Rightarrow> 'a::zero tensor3 \<Rightarrow> 'a tensor3" where
  "context_frames w x =
     \<lparr>dim0 = dim0 x, dim1 = dim1 x, dim2 = (2 * w + 1) * dim2 x,
      rows = map (\<lambda>r. map (\<lambda>i. concat (map (\<lambda>k. frame_at x r (int i + int k - int w))
                                              [0..<2 * w + 1]))
                          [0..<dim1 x])
                 [0..<dim0 x]\<rparr>"

text \<open>
  Intermediate values of \<open>cw_forward\<close>: a row after both paddings, and the tensor
  appended to \<^verbatim>\<open>temps\<close> at step \<open>i\<close> of the loop.
\<close>

definition padded_row :: "nat \<Rightarrow> nat \<Rightarrow> 'a::zero list list \<Rightarrow> 'a list list" where
  "padded_row w f r = replicate w (replicate f 0) @ r @ replicate w (replicate f 0)"

definition window_temp :: "nat \<Rightarrow> 'a::zero tensor3 \<Rightarrow> nat \<Rightarrow> 'a tensor2" where
  "window_temp w x i =
     \<lparr>nrows = dim0 x, ncols = (2 * w + 1) * dim2 x,
      cells = map (\<lambda>r. concat (take (2 * w + 1) (drop i (padded_row w (dim2 x) r)))) (rows x)\<rparr>"

text \<open>Concrete inputs: an ordinary one, one with no time step, one with no row.\<close>

definition cw_example :: "int tensor3" where
  "cw_example = \<lparr>dim0 = 1, dim1 = 2, dim2 = 1, rows = [[[5], [7]]]\<rparr>"

definition cw_empty_sequence :: "int tensor3" where
  "cw_empty_sequence = \<lparr>dim0 = 1, dim1 = 0, dim2 = 1, rows = [[]]\<rparr>"

definition cw_empty_batch :: "int tensor3" where
  "cw_empty_batch = \<lparr>dim0 = 0, dim1 = 1, dim2 = 1, rows = []\<rparr>"

section \<open>Tensors of any rank\<close>

text \<open>
  \<^verbatim>\<open>TimeDistributed\<close> and \<^verbatim>\<open>Concatenate\<close> accept tensors of any rank. Such a
  tensor is its shape and its elements in row-major order, which is how a contiguous
  tensor is stored: a \<^verbatim>\<open>view\<close> changes the shape and leaves the elements alone.
\<close>

record 'a tensor =
  shape :: "nat list"
  elems :: "'a list"

definition numel :: "'a tensor \<Rightarrow> nat" where
  "numel x = prod_list (shape x)"




section \<open>TimeDistributed\<close>


text \<open>The identity module, and a tensor of shape \<open>(1, 1, 0)\<close> and one of shape \<open>(2, 1, 2)\<close>.\<close>

definition identity_module :: "'a tensor \<Rightarrow> error + 'a tensor" where
  "identity_module x = Inr x"



section \<open>Concatenate\<close>

text \<open>
  \<^verbatim>\<open>torch.cat(res, dim=-1)\<close>. The list must not be empty. Tensors of shape \<open>(0,)\<close> are
  skipped (the library's rule for empty one-dimensional tensors); the others must have
  one rank, at least 1, and agree on every axis but the last. Row \<open>r\<close> of the result is
  row \<open>r\<close> of each tensor in turn, a row being a run of elements along the last axis.
\<close>

definition last_size :: "'a tensor \<Rightarrow> nat" where
  "last_size x = last (shape x)"

definition row_of :: "'a tensor \<Rightarrow> nat \<Rightarrow> 'a list" where
  "row_of x r = take (last_size x) (drop (r * last_size x) (elems x))"

definition cat_last :: "'a tensor list \<Rightarrow> error + 'a tensor" where
  "cat_last ts =
     (case filter (\<lambda>t. shape t \<noteq> [0]) ts of
        [] \<Rightarrow> if ts = [] then Inl RuntimeError else Inr \<lparr>shape = [0], elems = []\<rparr>
      | u # us \<Rightarrow>
          if shape u = []
             \<or> (\<exists>v \<in> set us. length (shape v) \<noteq> length (shape u)
                                \<or> butlast (shape v) \<noteq> butlast (shape u))
          then Inl RuntimeError
          else Inr \<lparr>shape = butlast (shape u) @ [sum_list (map last_size (u # us))],
                    elems = concat (map (\<lambda>r. concat (map (\<lambda>v. row_of v r) (u # us)))
                                        [0..<prod_list (butlast (shape u))])\<rparr>)"

text \<open>
  \<^verbatim>\<open>Concatenate.forward\<close>: the list comprehension applies the modules in order and
  stops at the first one that raises.
\<close>

definition concat_forward ::
  "('a tensor \<Rightarrow> error + 'b tensor) list \<Rightarrow> 'a tensor list \<Rightarrow> error + 'b tensor" where
  "concat_forward modules inputs =
     (if \<not> length inputs = length modules then Inl AssertionError
      else case traverse (\<lambda>(m, i). m i) (zip modules inputs) of
             Inl e \<Rightarrow> Inl e
           | Inr res \<Rightarrow> cat_last res)"

text \<open>
  The condition under which \<^verbatim>\<open>torch.cat\<close> accepts a list: it is not empty, and its
  tensors have one rank, at least 1, and agree on every axis but the last.
\<close>

definition cat_compatible :: "'a tensor list \<Rightarrow> bool" where
  "cat_compatible ys \<longleftrightarrow>
     ys \<noteq> [] \<and> (\<forall>v \<in> set ys. shape v \<noteq> [] \<and> length (shape v) = length (shape (hd ys))
                                 \<and> butlast (shape v) = butlast (shape (hd ys)))"

definition double_module :: "int tensor \<Rightarrow> error + int tensor" where
  "double_module x = Inr \<lparr>shape = shape x, elems = map (\<lambda>v. 2 * v) (elems x)\<rparr>"

text \<open>Inputs for a \<^verbatim>\<open>Concatenate\<close> of the identity and the doubling module.\<close>

definition cat_in1 :: "int tensor" where
  "cat_in1 = \<lparr>shape = [2, 1], elems = [1, 2]\<rparr>"

definition cat_in2 :: "int tensor" where
  "cat_in2 = \<lparr>shape = [2, 2], elems = [3, 4, 5, 6]\<rparr>"

definition cat_out2 :: "int tensor" where
  "cat_out2 = \<lparr>shape = [2, 2], elems = [6, 8, 10, 12]\<rparr>"

section \<open>CNNEncoder\<close>


text \<open>
  \<^verbatim>\<open>nn.Conv2d\<close> with one input channel, stride 1: the kernel size, the padding (one
  amount per axis, which the library adds on both sides of that axis), one kernel per
  output channel and one bias per output channel.
\<close>

record 'a conv2d =
  out_channels :: nat
  kernel_size :: "nat \<times> nat"
  padding :: "nat \<times> nat"
  weight :: "'a list list list"
  bias :: "'a list"












section \<open>Properties of ContextWindow\<close>

lemma traverse_all_ok:
  "(\<And>x. x \<in> set xs \<Longrightarrow> f x = Inr (g x)) \<Longrightarrow> traverse f xs = Inr (map g xs)"
  by (induction xs) auto

lemma chunk_concat:
  "(\<And>r. r \<in> set rs \<Longrightarrow> length r = m) \<Longrightarrow> chunk (length rs) m (concat rs) = rs"
  by (induction rs) auto

lemma concat_concat_map: "concat (concat xss) = concat (map concat xss)"
  by (induction xss) auto

lemma length_concat_const:
  "(\<And>r. r \<in> set rs \<Longrightarrow> length r = m) \<Longrightarrow> length (concat rs) = length rs * m"
  by (induction rs) auto

lemma map2_append_replicate_left:
  "length rs = n \<Longrightarrow> map2 (@) (replicate n p) rs = map ((@) p) rs"
  by (induction rs arbitrary: n) auto

lemma map2_append_replicate_right:
  "length rs = n \<Longrightarrow> map2 (@) rs (replicate n p) = map (\<lambda>r. r @ p) rs"
  by (induction rs arbitrary: n) auto

lemma pad_both:
  assumes "wf3 x"
  shows "pad w x True = Inr \<lparr>dim0 = dim0 x, dim1 = w + dim1 x, dim2 = dim2 x,
            rows = map ((@) (replicate w (replicate (dim2 x) 0))) (rows x)\<rparr>"
  using assms by (simp add: pad_def get_padding_for_def cat_dim1_def wf3_def map2_append_replicate_left)

lemma pad_both2:
  assumes "wf3 x"
  shows "pad w \<lparr>dim0 = dim0 x, dim1 = w + dim1 x, dim2 = dim2 x,
            rows = map ((@) (replicate w (replicate (dim2 x) 0))) (rows x)\<rparr> False
         = Inr \<lparr>dim0 = dim0 x, dim1 = w + dim1 x + w, dim2 = dim2 x,
            rows = map (padded_row w (dim2 x)) (rows x)\<rparr>"
  using assms by (simp add: pad_def get_padding_for_def cat_dim1_def wf3_def map2_append_replicate_right padded_row_def)

lemma take_drop_map_nth:
  "i + n \<le> length xs \<Longrightarrow> take n (drop i xs) = map (\<lambda>k. xs ! (i + k)) [0..<n]"
  by (simp add: list_eq_iff_nth_eq)

lemma padded_row_nth:
  assumes "length r = L" "k < L + 2 * w"
  shows "padded_row w f r ! k = (if w \<le> k \<and> k < w + L then r ! (k - w) else replicate f 0)"
  using assms by (auto simp: padded_row_def nth_append)

lemma padded_row_frames:
  assumes "\<forall>fr \<in> set r. length fr = f" "fr \<in> set (padded_row w f r)"
  shows "length fr = f"
  using assms by (auto simp: padded_row_def)

lemma window_concat_length:
  assumes "length r = L" "\<forall>fr \<in> set r. length fr = f" "i < L"
  shows "length (concat (take (2 * w + 1) (drop i (padded_row w f r)))) = (2 * w + 1) * f"
proof -
  let ?t = "take (2 * w + 1) (drop i (padded_row w f r))"
  have len: "length ?t = 2 * w + 1"
    using assms by (simp add: padded_row_def)
  have "\<And>fr. fr \<in> set ?t \<Longrightarrow> length fr = f"
    using padded_row_frames [OF assms(2)] by (meson in_set_dropD in_set_takeD)
  then show ?thesis
    using length_concat_const [of ?t f] len by simp
qed

lemma view_rows_slice:
  assumes "wf3 x" "0 < dim0 x" "i < dim1 x"
  shows "view_rows (dim0 x)
           (slice_dim1 i (i + 2 * w + 1)
              \<lparr>dim0 = dim0 x, dim1 = w + dim1 x + w, dim2 = dim2 x,
               rows = map (padded_row w (dim2 x)) (rows x)\<rparr>)
         = Inr (window_temp w x i)"
proof -
  let ?rs = "map (\<lambda>r. concat (take (2 * w + 1) (drop i (padded_row w (dim2 x) r)))) (rows x)"
  have n: "min (2 * w + 1) (w + dim1 x + w - i) = 2 * w + 1"
    using assms(3) by simp
  have each: "\<And>r. r \<in> set ?rs \<Longrightarrow> length r = (2 * w + 1) * dim2 x"
    using assms window_concat_length [where L = "dim1 x" and f = "dim2 x" and i = i and w = w]
    by (auto simp: wf3_def)
  have len: "length ?rs = dim0 x"
    using assms by (simp add: wf3_def)
  have flat: "concat (concat (map (\<lambda>r. take (2 * w + 1) (drop i (padded_row w (dim2 x) r))) (rows x)))
               = concat ?rs"
    by (simp add: concat_concat_map comp_def)
  have ch: "chunk (dim0 x) ((2 * w + 1) * dim2 x) (concat ?rs) = ?rs"
    using chunk_concat [of ?rs "(2 * w + 1) * dim2 x"] each len by simp
  let ?s = "slice_dim1 i (i + 2 * w + 1)
              \<lparr>dim0 = dim0 x, dim1 = w + dim1 x + w, dim2 = dim2 x,
               rows = map (padded_row w (dim2 x)) (rows x)\<rparr>"
  have numel: "numel3 ?s = dim0 x * ((2 * w + 1) * dim2 x)"
  proof -
    have "i + 2 * w + 1 - i = 2 * w + 1" by simp
    then have "dim1 ?s = 2 * w + 1"
      using n by (simp add: slice_dim1_def)
    moreover have "dim0 ?s = dim0 x" "dim2 ?s = dim2 x"
      by (simp_all add: slice_dim1_def)
    ultimately show ?thesis
      by (simp only: numel3_def mult.assoc)
  qed
  have rs: "concat (concat (rows ?s)) = concat ?rs"
    by (simp add: slice_dim1_def concat_concat_map comp_def)
  show ?thesis
    unfolding view_rows_def numel window_temp_def rs
    using assms(2) ch by simp
qed

lemma window_temp_cell:
  assumes "wf3 x" "r < dim0 x" "i < dim1 x"
  shows "cells (window_temp w x i) ! r
         = concat (map (\<lambda>k. frame_at x r (int i + int k - int w)) [0..<2 * w + 1])"
proof -
  let ?row = "rows x ! r"
  have rl: "length ?row = dim1 x"
    using assms by (simp add: wf3_def)
  have td: "take (2 * w + 1) (drop i (padded_row w (dim2 x) ?row))
            = map (\<lambda>k. padded_row w (dim2 x) ?row ! (i + k)) [0..<2 * w + 1]"
    using assms(3) rl by (intro take_drop_map_nth) (simp add: padded_row_def)
  have fr: "\<And>k. k < 2 * w + 1 \<Longrightarrow>
      padded_row w (dim2 x) ?row ! (i + k) = frame_at x r (int i + int k - int w)"
  proof -
    fix k assume k: "k < 2 * w + 1"
    have "i + k < dim1 x + 2 * w" using assms(3) k by simp
    from padded_row_nth [OF rl this, of "dim2 x"]
    show "padded_row w (dim2 x) ?row ! (i + k) = frame_at x r (int i + int k - int w)"
      by (auto simp: frame_at_def nat_diff_distrib' intro!: arg_cong [where f = "\<lambda>j. rows x ! r ! j"])
  qed
  have "cells (window_temp w x i) ! r
        = concat (take (2 * w + 1) (drop i (padded_row w (dim2 x) ?row)))"
    using assms by (simp add: window_temp_def wf3_def)
  also have "\<dots> = concat (map (\<lambda>k. padded_row w (dim2 x) ?row ! (i + k)) [0..<2 * w + 1])"
    by (simp only: td)
  also have "\<dots> = concat (map (\<lambda>k. frame_at x r (int i + int k - int w)) [0..<2 * w + 1])"
    using fr by (intro arg_cong [where f = concat] map_cong) auto
  finally show ?thesis .
qed

lemma stack_window_temps:
  assumes "wf3 x" "0 < dim1 x"
  shows "stack_dim1 (map (window_temp w x) [0..<dim1 x]) = Inr (context_frames w x)"
proof -
  obtain t ts where ts: "map (window_temp w x) [0..<dim1 x] = t # ts"
    using assms(2) by (cases "map (window_temp w x) [0..<dim1 x]") auto
  then have t: "nrows t = dim0 x" "ncols t = (2 * w + 1) * dim2 x"
    by (auto simp: map_eq_Cons_conv window_temp_def)
  have all: "\<forall>u \<in> set (t # ts). nrows u = nrows t \<and> ncols u = ncols t"
    unfolding ts [symmetric] using t by (auto simp: window_temp_def)
  have len: "length (t # ts) = dim1 x"
    unfolding ts [symmetric] by simp
  have rows_eq: "map (\<lambda>r. map (\<lambda>u. cells u ! r) (t # ts)) [0..<dim0 x]
                 = rows (context_frames w x)"
    unfolding ts [symmetric] context_frames_def
    using window_temp_cell [OF assms(1)] by (simp add: comp_def)
  show ?thesis
    unfolding ts stack_dim1_def
    using all len rows_eq t by (simp add: context_frames_def del: set_simps)
qed

lemma cw_forward_positive:
  assumes "wf3 x" "0 < w" "0 < dim0 x" "0 < dim1 x"
  shows "cw_forward w x = Inr (context_frames (nat w) x)"
proof -
  have tr: "traverse (\<lambda>i. view_rows (dim0 x)
              (slice_dim1 i (i + 2 * nat w + 1)
                 \<lparr>dim0 = dim0 x, dim1 = nat w + dim1 x + nat w, dim2 = dim2 x,
                  rows = map (padded_row (nat w) (dim2 x)) (rows x)\<rparr>)) [0..<dim1 x]
            = Inr (map (window_temp (nat w) x) [0..<dim1 x])"
    using view_rows_slice [OF assms(1) assms(3)] by (intro traverse_all_ok) simp
  show ?thesis
    using assms(2) pad_both [OF assms(1), of "nat w"] pad_both2 [OF assms(1), of "nat w"]
      tr stack_window_temps [OF assms(1) assms(4), of "nat w"]
    by (simp add: cw_forward_def Let_def)
qed

lemma frame_at_length:
  assumes "wf3 x" "r < dim0 x"
  shows "length (frame_at x r j) = dim2 x"
proof (cases "0 \<le> j \<and> j < int (dim1 x)")
  case True
  have "rows x ! r \<in> set (rows x)" using assms by (simp add: wf3_def)
  then have "length (rows x ! r) = dim1 x" "\<forall>fr \<in> set (rows x ! r). length fr = dim2 x"
    using assms(1) by (auto simp: wf3_def)
  moreover have "nat j < dim1 x" using True by linarith
  ultimately have "length (rows x ! r ! nat j) = dim2 x" by simp
  then show ?thesis using True by (simp add: frame_at_def)
next
  case False
  then show ?thesis by (auto simp: frame_at_def)
qed

lemma wf3_context_frames:
  assumes "wf3 x"
  shows "wf3 (context_frames w x)"
proof -
  have "\<And>r i. r < dim0 x \<Longrightarrow>
      length (concat (map (\<lambda>k. frame_at x r (int i + int k - int w)) [0..<2 * w + 1]))
      = (2 * w + 1) * dim2 x"
  proof -
    fix r i assume r: "r < dim0 x"
    have "length (concat (map (\<lambda>k. frame_at x r (int i + int k - int w)) [0..<2 * w + 1]))
          = length (map (\<lambda>k. frame_at x r (int i + int k - int w)) [0..<2 * w + 1]) * dim2 x"
      using frame_at_length [OF assms r] by (intro length_concat_const) auto
    then show "length (concat (map (\<lambda>k. frame_at x r (int i + int k - int w)) [0..<2 * w + 1]))
      = (2 * w + 1) * dim2 x" by simp
  qed
  then show ?thesis
    by (auto simp: wf3_def context_frames_def)
qed

lemma map_upto_shift:
  "map (\<lambda>k. f (a + int k)) [0..<n] = map f [a..a + int n - 1]"
proof (induction n)
  case 0
  then show ?case by simp
next
  case (Suc n)
  have "[a..a + int (Suc n) - 1] = [a..a + int n - 1] @ [a + int n]"
    using upto_rec2 [of a "a + int n"] by (simp add: algebra_simps)
  then show ?case using Suc by simp
qed

lemma window_frames_upto:
  "map (\<lambda>k. frame_at x r (int i + int k - int w)) [0..<2 * w + 1]
   = map (frame_at x r) [int i - int w..int i + int w]"
proof -
  have e: "int i - int w + int (2 * w + 1) - 1 = int i + int w" by simp
  have "map (\<lambda>k. frame_at x r (int i + int k - int w)) [0..<2 * w + 1]
        = map (\<lambda>k. frame_at x r (int i - int w + int k)) [0..<2 * w + 1]"
    by (intro map_cong refl arg_cong [where f = "frame_at x r"]) simp
  also have "\<dots> = map (frame_at x r) [int i - int w..int i - int w + int (2 * w + 1) - 1]"
    by (rule map_upto_shift)
  finally show ?thesis by (simp only: e)
qed

text \<open>
  C2 (as amended). For a rank-3 input of shape \<open>(batch, L, features)\<close> with
  \<open>batch \<ge> 1\<close> and \<open>L \<ge> 1\<close> and a window \<open>w > 0\<close>,
  \<^verbatim>\<open>ContextWindow.forward\<close> returns a well-formed tensor of shape
  \<open>(batch, L, (2w+1) * features)\<close> whose vector at row \<open>r\<close> and time \<open>i\<close> is the
  concatenation of the frames at times \<open>i - w, \<dots>, i + w\<close> of row \<open>r\<close>, a frame outside
  \<open>[0, L)\<close> being the zero vector.
\<close>

theorem cw_forward_window:
  assumes "wf3 x" "0 < w" "0 < dim0 x" "0 < dim1 x"
  shows "\<exists>y. cw_forward w x = Inr y \<and> wf3 y
           \<and> dim0 y = dim0 x \<and> dim1 y = dim1 x \<and> dim2 y = (2 * nat w + 1) * dim2 x
           \<and> (\<forall>r < dim0 x. \<forall>i < dim1 x.
                 rows y ! r ! i = concat (map (frame_at x r) [int i - w..int i + w]))"
proof -
  have w: "int (nat w) = w" using assms(2) by simp
  have "\<forall>r < dim0 x. \<forall>i < dim1 x.
          rows (context_frames (nat w) x) ! r ! i
          = concat (map (frame_at x r) [int i - w..int i + w])"
    using window_frames_upto [of x _ _ "nat w"] w by (simp add: context_frames_def)
  then show ?thesis
    using cw_forward_positive [OF assms] wf3_context_frames [OF assms(1), of "nat w"]
    by (simp add: context_frames_def)
qed

theorem cw_forward_window_witness:
  "wf3 cw_example \<and> (0::int) < 1 \<and> 0 < dim0 cw_example \<and> 0 < dim1 cw_example
   \<and> (\<exists>y. cw_forward 1 cw_example = Inr y \<and> wf3 y
           \<and> dim0 y = dim0 cw_example \<and> dim1 y = dim1 cw_example
           \<and> dim2 y = (2 * nat 1 + 1) * dim2 cw_example
           \<and> (\<forall>r < dim0 cw_example. \<forall>i < dim1 cw_example.
                 rows y ! r ! i = concat (map (frame_at cw_example r) [int i - 1..int i + 1])))"
proof -
  have h: "wf3 cw_example" "(0::int) < 1" "0 < dim0 cw_example" "0 < dim1 cw_example"
    by (simp_all add: wf3_def cw_example_def)
  show ?thesis
    using h cw_forward_window [OF h] by simp
qed

text \<open>
  C2 as stated also covers \<open>L = 0\<close>. There the loop appends nothing and
  \<^verbatim>\<open>torch.stack\<close> is called on an empty list, which raises.
\<close>

theorem cw_forward_empty_sequence_fails:
  "wf3 cw_empty_sequence \<and> cw_forward 1 cw_empty_sequence = Inl RuntimeError"
  by (simp add: cw_empty_sequence_def wf3_def cw_forward_def pad_def get_padding_for_def
      cat_dim1_def stack_dim1_def)

text \<open>
  C6 as stated promises a result for every rank-3 input. With no row in the batch the
  \<^verbatim>\<open>view(batch_size, -1)\<close> of the first slice raises, since the size left open
  cannot be inferred.
\<close>

theorem cw_forward_empty_batch_fails:
  "wf3 cw_empty_batch \<and> cw_forward 1 cw_empty_batch = Inl RuntimeError"
  by (simp add: cw_empty_batch_def wf3_def cw_forward_def pad_def get_padding_for_def
      cat_dim1_def view_rows_def)

lemma cw_forward_no_sequence:
  assumes "wf3 x" "0 < w" "dim1 x = 0"
  shows "cw_forward w x = Inl RuntimeError"
  using assms(2,3) pad_both [OF assms(1), of "nat w"] pad_both2 [OF assms(1), of "nat w"]
  by (simp add: cw_forward_def Let_def stack_dim1_def)

lemma cw_forward_no_batch:
  assumes "wf3 x" "0 < w" "dim0 x = 0" "0 < dim1 x"
  shows "cw_forward w x = Inl RuntimeError"
proof -
  have "[0..<dim1 x] = 0 # [1..<dim1 x]"
    using assms(4) by (simp add: upt_conv_Cons)
  then show ?thesis
    using assms(2,3) pad_both [OF assms(1), of "nat w"] pad_both2 [OF assms(1), of "nat w"]
    by (simp add: cw_forward_def Let_def view_rows_def)
qed

text \<open>
  C6 (as amended). For a rank-3 input and a window \<open>w \<ge> 0\<close>,
  \<^verbatim>\<open>ContextWindow.forward\<close> returns a tensor exactly when \<open>w = 0\<close>, or the batch
  has at least one row and the sequence at least one time step.
\<close>

theorem cw_forward_succeeds_iff:
  assumes "wf3 x" "0 \<le> w"
  shows "(\<exists>y. cw_forward w x = Inr y) \<longleftrightarrow> w = 0 \<or> (0 < dim0 x \<and> 0 < dim1 x)"
proof (cases "w = 0")
  case True
  then show ?thesis by (simp add: cw_forward_def)
next
  case False
  then have w: "0 < w" using assms(2) by simp
  show ?thesis
  proof (cases "0 < dim0 x \<and> 0 < dim1 x")
    case True
    then show ?thesis using cw_forward_positive [OF assms(1) w] by simp
  next
    case no: False
    have "cw_forward w x = Inl RuntimeError"
      using no cw_forward_no_sequence [OF assms(1) w] cw_forward_no_batch [OF assms(1) w]
      by (cases "dim1 x = 0") auto
    then show ?thesis using no False by simp
  qed
qed

theorem cw_forward_succeeds_iff_witness:
  "wf3 cw_example \<and> (0::int) \<le> 2
   \<and> ((\<exists>y. cw_forward 2 cw_example = Inr y)
        \<longleftrightarrow> (2::int) = 0 \<or> (0 < dim0 cw_example \<and> 0 < dim1 cw_example))"
proof -
  have h: "wf3 cw_example" "(0::int) \<le> 2"
    by (simp_all add: wf3_def cw_example_def)
  show ?thesis
    using h cw_forward_succeeds_iff [OF h] by simp
qed

text \<open>
  C9. With a window of 0, \<^verbatim>\<open>ContextWindow.forward\<close> is the identity on rank-3
  tensors: it returns its input unchanged.
\<close>

theorem cw_window_zero_identity: "cw_forward 0 x = Inr x"
  by (simp add: cw_forward_def)

section \<open>Properties of TimeDistributed and Concatenate\<close>





lemma traverse_zip_apply:
  "length xs = length ms \<Longrightarrow> length ys = length ms
   \<Longrightarrow> (\<And>k. k < length ms \<Longrightarrow> (ms ! k) (xs ! k) = Inr (ys ! k))
   \<Longrightarrow> traverse (\<lambda>(m, i). m i) (zip ms xs) = Inr ys"
proof (induction ms arbitrary: xs ys)
  case Nil
  then show ?case by simp
next
  case (Cons m ms)
  obtain x xs' where xs: "xs = x # xs'" using Cons.prems(1) by (cases xs) auto
  obtain y ys' where ys: "ys = y # ys'" using Cons.prems(2) by (cases ys) auto
  have "m x = Inr y" using Cons.prems(3) [of 0] xs ys by simp
  moreover have "traverse (\<lambda>(m, i). m i) (zip ms xs') = Inr ys'"
  proof (rule Cons.IH)
    show "length xs' = length ms" using Cons.prems(1) xs by simp
    show "length ys' = length ms" using Cons.prems(2) ys by simp
    show "\<And>k. k < length ms \<Longrightarrow> (ms ! k) (xs' ! k) = Inr (ys' ! k)"
      using Cons.prems(3) [of "Suc _"] xs ys by simp
  qed
  ultimately show ?case using xs ys by simp
qed

lemma sum_list_filter_zero:
  "(\<And>x. x \<in> set xs \<Longrightarrow> \<not> P x \<Longrightarrow> f x = (0::nat))
   \<Longrightarrow> sum_list (map f (filter P xs)) = sum_list (map f xs)"
  by (induction xs) auto

lemma concat_filter_empty:
  "(\<And>x. x \<in> set xs \<Longrightarrow> \<not> P x \<Longrightarrow> g x = [])
   \<Longrightarrow> concat (map g (filter P xs)) = concat (map g xs)"
  by (induction xs) auto

lemma row_of_skipped: "shape v = [0] \<Longrightarrow> row_of v r = []"
  by (simp add: row_of_def last_size_def)

lemma cat_last_compatible:
  assumes "cat_compatible ys"
  shows "cat_last ys =
           Inr \<lparr>shape = butlast (shape (hd ys)) @ [sum_list (map last_size ys)],
                elems = concat (map (\<lambda>r. concat (map (\<lambda>v. row_of v r) ys))
                                    [0..<prod_list (butlast (shape (hd ys)))])\<rparr>"
proof -
  let ?us = "filter (\<lambda>t. shape t \<noteq> [0]) ys"
  have ne: "ys \<noteq> []" using assms by (simp add: cat_compatible_def)
  have sums: "sum_list (map last_size ?us) = sum_list (map last_size ys)"
    by (rule sum_list_filter_zero) (simp add: last_size_def)
  have rws: "\<And>r. concat (map (\<lambda>v. row_of v r) ?us) = concat (map (\<lambda>v. row_of v r) ys)"
    by (rule concat_filter_empty) (simp add: row_of_skipped)
  show ?thesis
  proof (cases ?us)
    case Nil
    then have all0: "\<forall>v \<in> set ys. shape v = [0]"
      by (auto simp: filter_empty_conv)
    then have "shape (hd ys) = [0]" using ne by simp
    moreover have "sum_list (map last_size ys) = 0"
      using all0 by (simp add: last_size_def)
    moreover have "concat (map (\<lambda>v. row_of v 0) ys) = []"
      using all0 by (simp add: row_of_skipped)
    ultimately show ?thesis
      using Nil ne by (simp add: cat_last_def)
  next
    case (Cons u us)
    then have "u \<in> set ?us" "set us \<subseteq> set ?us" by auto
    then have u: "u \<in> set ys" and us: "set us \<subseteq> set ys" by auto
    have comp: "\<And>v. v \<in> set ys \<Longrightarrow> shape v \<noteq> []
                \<and> length (shape v) = length (shape (hd ys))
                \<and> butlast (shape v) = butlast (shape (hd ys))"
      using assms unfolding cat_compatible_def by blast
    have su: "shape u \<noteq> []" "butlast (shape u) = butlast (shape (hd ys))"
      "length (shape u) = length (shape (hd ys))"
      using comp [OF u] by blast+
    have ok: "\<not> (\<exists>v \<in> set us. length (shape v) \<noteq> length (shape u)
                            \<or> butlast (shape v) \<noteq> butlast (shape u))"
    proof
      assume "\<exists>v \<in> set us. length (shape v) \<noteq> length (shape u)
                            \<or> butlast (shape v) \<noteq> butlast (shape u)"
      then obtain v where v: "v \<in> set us"
        "length (shape v) \<noteq> length (shape u) \<or> butlast (shape v) \<noteq> butlast (shape u)"
        by blast
      have "v \<in> set ys" using v(1) us by blast
      from comp [OF this] v(2) su show False by metis
    qed
    have "cat_last ys =
            Inr \<lparr>shape = butlast (shape u) @ [sum_list (map last_size (u # us))],
                 elems = concat (map (\<lambda>r. concat (map (\<lambda>v. row_of v r) (u # us)))
                                     [0..<prod_list (butlast (shape u))])\<rparr>"
      unfolding cat_last_def Cons list.case using su(1) ok by (simp only: if_False simp_thms)
    then show ?thesis
      using sums rws unfolding Cons su(2) by (simp only:)
  qed
qed

lemma concat_forward_mismatch:
  "length xs \<noteq> length ms \<Longrightarrow> concat_forward ms xs = Inl AssertionError"
  by (simp add: concat_forward_def)

lemma concat_forward_compatible:
  assumes "length xs = length ms" "length ys = length ms"
    "\<And>k. k < length ms \<Longrightarrow> (ms ! k) (xs ! k) = Inr (ys ! k)" "cat_compatible ys"
  shows "concat_forward ms xs =
           Inr \<lparr>shape = butlast (shape (hd ys)) @ [sum_list (map last_size ys)],
                elems = concat (map (\<lambda>r. concat (map (\<lambda>v. row_of v r) ys))
                                    [0..<prod_list (butlast (shape (hd ys)))])\<rparr>"
  using assms(1) traverse_zip_apply [OF assms(1,2,3)] cat_last_compatible [OF assms(4)]
  by (simp add: concat_forward_def)

text \<open>
  C7 as stated promises the concatenation whenever the two lists have one length. With no
  sub-module and no input the lengths agree, and \<^verbatim>\<open>torch.cat\<close> raises on the
  empty list of results.
\<close>

theorem concat_forward_no_modules_fails:
  "length ([] :: int tensor list) = length ([] :: (int tensor \<Rightarrow> error + int tensor) list)
   \<and> concat_forward ([] :: (int tensor \<Rightarrow> error + int tensor) list) [] = Inl RuntimeError"
  by (simp add: concat_forward_def cat_last_def)

text \<open>
  C7 (as amended). \<^verbatim>\<open>Concatenate.forward\<close> fails with the precondition assertion
  when the number of inputs differs from the number of sub-modules. When the numbers
  agree, sub-module \<open>k\<close> returns a tensor \<open>ys ! k\<close> on input \<open>k\<close> for every \<open>k\<close>, and these
  tensors are accepted by the concatenation (there is at least one, they have one rank,
  at least 1, and agree on every axis but the last), it returns their concatenation
  along the last axis: the leading axes are theirs, the last axis has the sum of their
  last-axis sizes, and each row is the rows of \<open>ys\<close> in order.
\<close>

theorem concat_forward_result:
  "(length xs \<noteq> length ms \<longrightarrow> concat_forward ms xs = Inl AssertionError)
   \<and> (length xs = length ms \<and> length ys = length ms
        \<and> (\<forall>k < length ms. (ms ! k) (xs ! k) = Inr (ys ! k)) \<and> cat_compatible ys
      \<longrightarrow> (\<exists>y. concat_forward ms xs = Inr y
             \<and> butlast (shape y) = butlast (shape (hd ys))
             \<and> last_size y = sum_list (map last_size ys)
             \<and> elems y = concat (map (\<lambda>r. concat (map (\<lambda>v. row_of v r) ys))
                                      [0..<prod_list (butlast (shape (hd ys)))])))"
proof (intro conjI impI)
  assume "length xs \<noteq> length ms"
  then show "concat_forward ms xs = Inl AssertionError"
    by (rule concat_forward_mismatch)
next
  assume h: "length xs = length ms \<and> length ys = length ms
        \<and> (\<forall>k < length ms. (ms ! k) (xs ! k) = Inr (ys ! k)) \<and> cat_compatible ys"
  then have "concat_forward ms xs =
           Inr \<lparr>shape = butlast (shape (hd ys)) @ [sum_list (map last_size ys)],
                elems = concat (map (\<lambda>r. concat (map (\<lambda>v. row_of v r) ys))
                                    [0..<prod_list (butlast (shape (hd ys)))])\<rparr>"
    by (intro concat_forward_compatible) auto
  then show "\<exists>y. concat_forward ms xs = Inr y
             \<and> butlast (shape y) = butlast (shape (hd ys))
             \<and> last_size y = sum_list (map last_size ys)
             \<and> elems y = concat (map (\<lambda>r. concat (map (\<lambda>v. row_of v r) ys))
                                      [0..<prod_list (butlast (shape (hd ys)))])"
    by (simp add: last_size_def)
qed

theorem concat_forward_result_witness:
  "concat_forward [identity_module] [cat_in1, cat_in2] = Inl AssertionError
   \<and> length [cat_in1, cat_in2] = length [identity_module, double_module]
   \<and> cat_compatible [cat_in1, cat_out2]
   \<and> (\<exists>y. concat_forward [identity_module, double_module] [cat_in1, cat_in2] = Inr y
         \<and> butlast (shape y) = [2] \<and> last_size y = 3 \<and> elems y = [1, 6, 8, 2, 10, 12])"
proof -
  have c: "cat_compatible [cat_in1, cat_out2]"
    by (simp add: cat_compatible_def cat_in1_def cat_out2_def)
  have a: "\<forall>k < length [identity_module, double_module].
             ([identity_module, double_module] ! k) ([cat_in1, cat_in2] ! k)
             = Inr ([cat_in1, cat_out2] ! k)"
    by (simp add: less_Suc_eq identity_module_def double_module_def cat_in2_def cat_out2_def)
  have r: "[0..<2] = [0, 1]" by (simp add: upt_rec)
  show ?thesis
    using c a concat_forward_result [of "[cat_in1, cat_in2]" "[identity_module]" "[]"]
      concat_forward_result [of "[cat_in1, cat_in2]" "[identity_module, double_module]"
        "[cat_in1, cat_out2]"]
    by (simp add: last_size_def row_of_def cat_in1_def cat_out2_def r numeral_3_eq_3)
qed

section \<open>Properties of CNNEncoder\<close>









end
